theory Spec2Isabelle
  imports Main "HOL-Library.Sublist"
begin

section \<open>Python string operations used by the crawler\<close>

text \<open>
  Python strings are modelled as \<^typ>\<open>string\<close>; a character is a code point below 256.
  The operations below are the ones \<^verbatim>\<open>crawler.py\<close> calls on \<^verbatim>\<open>str\<close> values:
  \<^verbatim>\<open>split\<close>, \<^verbatim>\<open>replace\<close>, \<^verbatim>\<open>strip\<close>, \<^verbatim>\<open>lower\<close>, \<^verbatim>\<open>startswith\<close>,
  the substring test \<^verbatim>\<open>in\<close> and the slice \<^verbatim>\<open>[:n]\<close>.
\<close>

datatype py_error = ValueError | AttributeError string

text \<open>\<^verbatim>\<open>s.split(sep)\<close> for a non-empty separator: the pieces between the occurrences of
  \<^verbatim>\<open>sep\<close>, found left to right without overlap.\<close>

function split_from :: "string \<Rightarrow> string \<Rightarrow> string list" where
  "split_from sep [] = [[]]"
| "split_from sep (c # cs) =
     (if sep \<noteq> [] \<and> prefix sep (c # cs)
      then [] # split_from sep (drop (length sep) (c # cs))
      else (case split_from sep cs of
              [] \<Rightarrow> [[c]]
            | p # ps \<Rightarrow> (c # p) # ps))"
  by pat_completeness auto
termination
  by (relation "measure (\<lambda>(sep, s). length s)") (auto simp: neq_Nil_conv)

text \<open>\<^verbatim>\<open>s.split(sep)\<close>: an empty separator raises \<^verbatim>\<open>ValueError\<close>.\<close>

definition str_split :: "string \<Rightarrow> string \<Rightarrow> py_error + string list" where
  "str_split s sep = (if sep = [] then Inl ValueError else Inr (split_from sep s))"

text \<open>\<^verbatim>\<open>s.replace(old, new)\<close>: every occurrence of \<^verbatim>\<open>old\<close>, found left to right without
  overlap, is replaced; an empty \<^verbatim>\<open>old\<close> matches before every character and at the end.\<close>

function replace_from :: "string \<Rightarrow> string \<Rightarrow> string \<Rightarrow> string" where
  "replace_from old new [] = []"
| "replace_from old new (c # cs) =
     (if old \<noteq> [] \<and> prefix old (c # cs)
      then new @ replace_from old new (drop (length old) (c # cs))
      else c # replace_from old new cs)"
  by pat_completeness auto
termination
  by (relation "measure (\<lambda>(old, new, s). length s)") (auto simp: neq_Nil_conv)

definition str_replace :: "string \<Rightarrow> string \<Rightarrow> string \<Rightarrow> string" where
  "str_replace s old new =
     (if old = [] then new @ concat (map (\<lambda>c. c # new) s) else replace_from old new s)"

text \<open>\<^verbatim>\<open>str.isspace\<close> on the code points below 256: TAB, LF, VT, FF, CR, the separators
  0x1C to 0x1F, space, NEL (0x85) and the no-break space (0xA0).\<close>

definition isspace :: "char \<Rightarrow> bool" where
  "isspace c = (let n = (of_char c :: nat) in
     (9 \<le> n \<and> n \<le> 13) \<or> (28 \<le> n \<and> n \<le> 32) \<or> n = 133 \<or> n = 160)"

text \<open>\<^verbatim>\<open>s.strip()\<close>: leading and trailing whitespace removed.\<close>

definition str_strip :: "string \<Rightarrow> string" where
  "str_strip s = dropWhile isspace (rev (dropWhile isspace (rev s)))"

text \<open>\<^verbatim>\<open>s.lower()\<close> on the code points below 256: the letters A to Z and the Latin-1
  capitals 0xC0 to 0xDE (without the multiplication sign 0xD7) move up by 32.\<close>

definition lower_char :: "char \<Rightarrow> char" where
  "lower_char c = (let n = (of_char c :: nat) in
     if (65 \<le> n \<and> n \<le> 90) \<or> (192 \<le> n \<and> n \<le> 222 \<and> n \<noteq> 215)
     then char_of (n + 32) else c)"

definition str_lower :: "string \<Rightarrow> string" where
  "str_lower s = map lower_char s"

text \<open>\<^verbatim>\<open>sub in s\<close>: \<^verbatim>\<open>sub\<close> occurs in \<^verbatim>\<open>s\<close> as a contiguous substring.\<close>

fun str_contains :: "string \<Rightarrow> string \<Rightarrow> bool" where
  "str_contains sub [] = (sub = [])"
| "str_contains sub (c # cs) = (prefix sub (c # cs) \<or> str_contains sub cs)"

text \<open>\<^verbatim>\<open>s.startswith(p)\<close>.\<close>

definition startswith :: "string \<Rightarrow> string \<Rightarrow> bool" where
  "startswith s p = prefix p s"

text \<open>The number of positions of \<open>s\<close> at which \<open>sub\<close> occurs (overlapping occurrences
  all counted). This is the notion of ``occurrence'' the properties speak of; the code
  never computes it.\<close>

fun occurrences :: "string \<Rightarrow> string \<Rightarrow> nat" where
  "occurrences sub [] = 0"
| "occurrences sub (c # cs) = (if prefix sub (c # cs) then 1 else 0) + occurrences sub cs"

text \<open>A string is trimmed when it neither starts nor ends with whitespace.\<close>

definition trimmed :: "string \<Rightarrow> bool" where
  "trimmed s = (s = [] \<or> (\<not> isspace (hd s) \<and> \<not> isspace (last s)))"


section \<open>Parsing a generation reply\<close>

record pair =
  instruction :: string
  input :: string
  "output" :: string

text \<open>Lines 127 to 141 of \<^verbatim>\<open>generate_instruction_pairs\<close>: the reply is split on
  \<^verbatim>\<open>INPUT:\<close>, the label \<^verbatim>\<open>INSTRUCTION:\<close> is replaced by the empty string in the first
  part, the second part is split on \<^verbatim>\<open>OUTPUT:\<close>; a split that does not give exactly
  two parts gives no record.\<close>

definition parse_content :: "string \<Rightarrow> py_error + pair option" where
  "parse_content generated_content =
     (case str_split generated_content ''INPUT:'' of
        Inl e \<Rightarrow> Inl e
      | Inr parts \<Rightarrow>
          if length parts = 2 then
            (let instruction = str_strip (str_replace (parts ! 0) ''INSTRUCTION:'' '''') in
             case str_split (parts ! 1) ''OUTPUT:'' of
               Inl e \<Rightarrow> Inl e
             | Inr input_output \<Rightarrow>
                 if length input_output = 2 then
                   (let input_text = str_strip (input_output ! 0);
                        output_text = str_strip (input_output ! 1)
                    in Inr (Some \<lparr>instruction = instruction, input = input_text,
                                  output = output_text\<rparr>))
                 else Inr None)
          else Inr None)"


text \<open>\<^verbatim>\<open>sep.join(parts)\<close>: the parts with the separator between them. The code never
  calls it; it states what a split takes apart.\<close>

fun str_join :: "string \<Rightarrow> string list \<Rightarrow> string" where
  "str_join sep [] = []"
| "str_join sep [p] = p"
| "str_join sep (p # q # ps) = p @ sep @ str_join sep (q # ps)"

text \<open>The reading the code does not implement: a strip of the leading label only. The
  text is trimmed, the label \<^verbatim>\<open>INSTRUCTION:\<close> is dropped when the text starts with it,
  and the rest is trimmed.\<close>

definition leading_label_only :: "string \<Rightarrow> string" where
  "leading_label_only s =
     (let t = str_strip s in
      if startswith t ''INSTRUCTION:'' then str_strip (drop (length ''INSTRUCTION:'') t) else t)"


section \<open>The scraper object and the world around it\<close>

text \<open>
  The network, the HTML library, the URL library and the generation service are not part
  of the repository: they are parameters of the model. An answer of the network or of the
  service may depend on the moment of the call, given as the number of events so far.
  \<^item> \<open>requests_get\<close>: what \<^verbatim>\<open>requests.get(url)\<close> does, a raised
    \<^verbatim>\<open>RequestException\<close> (with its text) or a response with status code and body;
  \<^item> \<open>http_error_str\<close>: the text of the \<^verbatim>\<open>HTTPError\<close> that
    \<^verbatim>\<open>raise_for_status\<close> raises for a status code and a URL;
  \<^item> \<open>find_all_a_href\<close>: the \<^verbatim>\<open>href\<close> values of
    \<^verbatim>\<open>BeautifulSoup(text, 'html.parser').find_all('a', href=True)\<close>, in document order;
  \<^item> \<open>urljoin\<close>: \<^verbatim>\<open>requests.compat.urljoin\<close>, which may raise \<^verbatim>\<open>ValueError\<close>;
  \<^item> \<open>get_text\<close>: \<^verbatim>\<open>soup.get_text(separator=' ', strip=True)\<close> of a body;
  \<^item> \<open>chat_create\<close>: what \<^verbatim>\<open>client.chat.completions.create\<close> followed by
    \<^verbatim>\<open>response.choices[0].message.content\<close> gives for a system and a user message:
    a raised exception (with its text) or the content, which may be \<^verbatim>\<open>None\<close>.
\<close>

datatype http_result = RequestException string | Response nat string

datatype completion = ApiException string | Message "string option"

datatype event = HttpGet string | ChatCreate string string | Print string | Sleep nat

record env =
  requests_get :: "nat \<Rightarrow> string \<Rightarrow> http_result"
  http_error_str :: "nat \<Rightarrow> string \<Rightarrow> string"
  find_all_a_href :: "string \<Rightarrow> string list"
  urljoin :: "string \<Rightarrow> string \<Rightarrow> py_error + string"
  get_text :: "string \<Rightarrow> string"
  chat_create :: "nat \<Rightarrow> string \<Rightarrow> string \<Rightarrow> completion"

text \<open>
  The object \<^verbatim>\<open>WebsiteScraperAlpacaFormatter\<close> with its attributes \<^verbatim>\<open>base_url\<close>,
  \<^verbatim>\<open>visited_urls\<close> and \<^verbatim>\<open>url\<close> (absent until \<^verbatim>\<open>process_multiple_recipes\<close> sets it),
  together with what the program does to the world: the \<open>trace\<close> of requests sent,
  lines printed and sleeps, in order, and the text \<open>files\<close> by path. File operations are
  taken to succeed; on POSIX a text file is written as it is given.
\<close>

record scraper =
  base_url :: string
  visited_urls :: "string set"
  url :: "string option"
  trace :: "event list"
  files :: "string \<Rightarrow> string option"

definition emit :: "event \<Rightarrow> scraper \<Rightarrow> scraper" where
  "emit e self = self\<lparr>trace := trace self @ [e]\<rparr>"

text \<open>\<^verbatim>\<open>raise_for_status\<close> raises for the status codes 400 to 599.\<close>

definition raises_for_status :: "nat \<Rightarrow> bool" where
  "raises_for_status status = (400 \<le> status \<and> status < 600)"

text \<open>\<^verbatim>\<open>str(e)\<close> of the exceptions the model raises itself.\<close>

fun str_of_error :: "py_error \<Rightarrow> string" where
  "str_of_error ValueError = ''empty separator''"
| "str_of_error (AttributeError m) = m"


section \<open>Link discovery\<close>

definition recipe_patterns :: "string list" where
  "recipe_patterns =
     [''/recipe/'', ''/recipes/'',
      ''recipe-'', ''recipes-'',
      ''cooking/'', ''food/'']"

text \<open>The Python set \<^verbatim>\<open>recipe_links\<close> is a list without repetition, in the order of
  insertion. The order in which \<^verbatim>\<open>list(recipe_links)\<close> gives the elements is not
  fixed by Python; the properties below speak of the elements and of their number.\<close>

definition set_add :: "string \<Rightarrow> string list \<Rightarrow> string list" where
  "set_add x xs = (if x \<in> set xs then xs else xs @ [x])"

text \<open>Lines 46 and 47: an \<^verbatim>\<open>href\<close> that does not start with a scheme is joined to
  \<open>page_url\<close>, the parameter \<^verbatim>\<open>url\<close> of \<^verbatim>\<open>find_recipe_links\<close>.\<close>

definition absolute_href :: "env \<Rightarrow> string \<Rightarrow> string \<Rightarrow> py_error + string" where
  "absolute_href env page_url link =
     (if \<not> (startswith link ''http://'' \<or> startswith link ''https://'')
      then urljoin env page_url link else Inr link)"

text \<open>The test of lines 50 to 52.\<close>

definition is_recipe_link :: "scraper \<Rightarrow> string \<Rightarrow> bool" where
  "is_recipe_link self href =
     (list_ex (\<lambda>pattern. str_contains pattern (str_lower href)) recipe_patterns \<and>
      str_contains (base_url self) href \<and>
      href \<notin> visited_urls self)"

text \<open>The loop of lines 42 to 55 over the anchors that are left.\<close>

fun scan_links ::
  "env \<Rightarrow> scraper \<Rightarrow> string \<Rightarrow> int \<Rightarrow> string list \<Rightarrow> string list \<Rightarrow> py_error + string list"
where
  "scan_links env self page_url max_links [] recipe_links = Inr recipe_links"
| "scan_links env self page_url max_links (link # links) recipe_links =
     (case absolute_href env page_url link of
        Inl e \<Rightarrow> Inl e
      | Inr href \<Rightarrow>
          if is_recipe_link self href
          then (let recipe_links' = set_add href recipe_links in
                if max_links \<le> int (length recipe_links') then Inr recipe_links'
                else scan_links env self page_url max_links links recipe_links')
          else scan_links env self page_url max_links links recipe_links)"

definition find_recipe_links ::
  "env \<Rightarrow> string \<Rightarrow> int \<Rightarrow> scraper \<Rightarrow> py_error + (string list \<times> scraper)"
where
  "find_recipe_links env page_url max_links self =
     (let self1 = emit (HttpGet page_url) self in
      case requests_get env (length (trace self)) page_url of
        RequestException e \<Rightarrow>
          Inr ([], emit (Print (''Error finding recipe links: '' @ e)) self1)
      | Response status text \<Rightarrow>
          if raises_for_status status
          then Inr ([], emit (Print (''Error finding recipe links: '' @
                                     http_error_str env status page_url)) self1)
          else (case scan_links env self1 page_url max_links (find_all_a_href env text) [] of
                  Inl e \<Rightarrow> Inl e
                | Inr recipe_links \<Rightarrow> Inr (recipe_links, self1)))"


section \<open>Page text extraction\<close>

definition scrape_website :: "env \<Rightarrow> scraper \<Rightarrow> py_error + (string option \<times> scraper)" where
  "scrape_website env self =
     (case url self of
        None \<Rightarrow> Inl (AttributeError ''url'')
      | Some u \<Rightarrow>
          (let self1 = emit (HttpGet u) self in
           case requests_get env (length (trace self)) u of
             RequestException e \<Rightarrow>
               Inr (None, emit (Print (''Error scraping website: '' @ e)) self1)
           | Response status text \<Rightarrow>
               if raises_for_status status
               then Inr (None, emit (Print (''Error scraping website: '' @
                                            http_error_str env status u)) self1)
               else Inr (Some (get_text env text), self1)))"


section \<open>Pair generation\<close>

definition newline :: string where
  "newline = [CHR 0x0A]"

definition indent :: "nat \<Rightarrow> string" where
  "indent n = replicate n (CHR '' '')"

definition system_prompt :: string where
  "system_prompt =
     newline @
     indent 8 @
     ''You are a culinary assistant that creates detailed instruction-input-output pairs for italian recipes.'' @
     newline @
     indent 8 @
     ''For each pair:'' @
     newline @
     indent 8 @
     ''1. Instruction should be a clear generalization of the task (like a system prompt)'' @
     newline @
     indent 8 @
     ''2. Input should contain relevant context or specific questions'' @
     newline @
     indent 8 @
     ''3. Output should be detailed, including ingredients, steps, or explanations in markdown format'' @
     newline @
     indent 8 @
     newline @
     indent 8 @
     ''Make each pair unique and focus on different aspects (ingredients, preparation, cooking tips, variations, etc.)'' @
     newline @
     indent 8"

text \<open>The user message of line 112 to 121 is the text around the slice
  \<^verbatim>\<open>text_content[:2000]\<close>.\<close>

definition user_head :: string where
  "user_head =
     newline @
     indent 24 @
     ''Create a unique instruction-input-output pair based on this recipe: ''"

definition user_tail :: string where
  "user_tail =
     newline @
     indent 24 @
     newline @
     indent 24 @
     ''Format as:'' @
     newline @
     indent 24 @
     ''INSTRUCTION: A generalised overview of the instructions for the recipe'' @
     newline @
     indent 24 @
     ''INPUT: [Context or specific question]'' @
     newline @
     indent 24 @
     ''OUTPUT: [Detailed response in markdown format]'' @
     newline @
     indent 24 @
     newline @
     indent 24 @
     ''Make sure the output includes proper markdown formatting with lists, headers, or emphasis where appropriate.'' @
     newline @
     indent 24"

definition user_message :: "string \<Rightarrow> string" where
  "user_message text_content = user_head @ take 2000 text_content @ user_tail"

text \<open>One pass of the loop body of lines 107 to 144: the request is sent; an exception
  raised by the service, by reading the reply or by the parsing is caught and printed.
  A reply whose content is \<^verbatim>\<open>None\<close> raises \<^verbatim>\<open>AttributeError\<close> at \<^verbatim>\<open>split\<close>.\<close>

definition none_split_error :: py_error where
  "none_split_error =
     AttributeError ([CHR 0x27] @ ''NoneType'' @ [CHR 0x27] @ '' object has no attribute '' @
                     [CHR 0x27] @ ''split'' @ [CHR 0x27])"

definition attempt :: "env \<Rightarrow> string \<Rightarrow> scraper \<Rightarrow> pair list \<Rightarrow> pair list \<times> scraper" where
  "attempt env text_content self instruction_pairs =
     (let self1 = emit (ChatCreate system_prompt (user_message text_content)) self in
      case (case chat_create env (length (trace self)) system_prompt
                   (user_message text_content) of
              ApiException e \<Rightarrow> Inl e
            | Message None \<Rightarrow> Inl (str_of_error none_split_error)
            | Message (Some generated_content) \<Rightarrow>
                (case parse_content generated_content of
                   Inl e \<Rightarrow> Inl (str_of_error e)
                 | Inr r \<Rightarrow> Inr r)) of
        Inl e \<Rightarrow>
          (instruction_pairs, emit (Print (''Error generating instruction pair: '' @ e)) self1)
      | Inr None \<Rightarrow> (instruction_pairs, self1)
      | Inr (Some p) \<Rightarrow> (instruction_pairs @ [p], self1))"

text \<open>\<^verbatim>\<open>for _ in range(num_pairs)\<close>: the passes that are left.\<close>

fun attempts :: "env \<Rightarrow> string \<Rightarrow> nat \<Rightarrow> scraper \<Rightarrow> pair list \<Rightarrow> pair list \<times> scraper" where
  "attempts env text_content 0 self instruction_pairs = (instruction_pairs, self)"
| "attempts env text_content (Suc n) self instruction_pairs =
     (case attempt env text_content self instruction_pairs of
        (instruction_pairs', self') \<Rightarrow> attempts env text_content n self' instruction_pairs')"

definition generate_instruction_pairs ::
  "env \<Rightarrow> string \<Rightarrow> int \<Rightarrow> scraper \<Rightarrow> pair list \<times> scraper"
where
  "generate_instruction_pairs env text_content num_pairs self =
     attempts env text_content (nat num_pairs) self []"


section \<open>Dataset writer\<close>

text \<open>\<^verbatim>\<open>json.dumps\<close> of a string with the default \<^verbatim>\<open>ensure_ascii\<close>: the quote and
  the backslash are escaped, the control characters with a short escape get it, every
  other character outside the range from space to tilde becomes a backslash, the letter u
  and four hexadecimal digits.\<close>

definition hex_digit :: "nat \<Rightarrow> char" where
  "hex_digit n = (if n < 16 then ''0123456789abcdef'' ! n else CHR ''?'')"

definition json_escape_char :: "char \<Rightarrow> string" where
  "json_escape_char c = (let n = (of_char c :: nat) in
     if n = 34 then [CHR 0x5C, CHR 0x22]
     else if n = 92 then [CHR 0x5C, CHR 0x5C]
     else if n = 10 then [CHR 0x5C, CHR ''n'']
     else if n = 13 then [CHR 0x5C, CHR ''r'']
     else if n = 9 then [CHR 0x5C, CHR ''t'']
     else if n = 8 then [CHR 0x5C, CHR ''b'']
     else if n = 12 then [CHR 0x5C, CHR ''f'']
     else if 32 \<le> n \<and> n \<le> 126 then [c]
     else [CHR 0x5C, CHR ''u'', CHR ''0'', CHR ''0'', hex_digit (n div 16), hex_digit (n mod 16)])"

definition json_string :: "string \<Rightarrow> string" where
  "json_string s = [CHR 0x22] @ concat (map json_escape_char s) @ [CHR 0x22]"

text \<open>\<^verbatim>\<open>json.dumps(pair)\<close> of the dictionary with the keys \<^verbatim>\<open>instruction\<close>,
  \<^verbatim>\<open>input\<close>, \<^verbatim>\<open>output\<close>, in the order of insertion.\<close>

definition json_dumps :: "pair \<Rightarrow> string" where
  "json_dumps p =
     ''{'' @ json_string ''instruction'' @ '': '' @ json_string (instruction p) @ '', '' @
     json_string ''input'' @ '': '' @ json_string (input p) @ '', '' @
     json_string ''output'' @ '': '' @ json_string (output p) @ ''}''"

text \<open>\<^verbatim>\<open>sum(1 for _ in f)\<close> on a file opened in text mode: the number of lines, where
  LF, CR and CR LF each end a line and a last line need not be ended.\<close>

fun count_lines :: "string \<Rightarrow> nat" where
  "count_lines [] = 0"
| "count_lines [c] = 1"
| "count_lines (c # d # cs) =
     (if c = CHR 0x0D \<and> d = CHR 0x0A then count_lines (d # cs)
      else if c = CHR 0x0A \<or> c = CHR 0x0D then 1 + count_lines (d # cs)
      else count_lines (d # cs))"

text \<open>\<^verbatim>\<open>str(n)\<close> of a natural number.\<close>

function str_nat :: "nat \<Rightarrow> string" where
  "str_nat n = (if n < 10 then [''0123456789'' ! n]
                else str_nat (n div 10) @ [''0123456789'' ! (n mod 10)])"
  by pat_completeness auto
termination
  by (relation "measure (\<lambda>n. n)") auto

declare str_nat.simps [simp del]

definition save_to_jsonl :: "pair list \<Rightarrow> string \<Rightarrow> scraper \<Rightarrow> scraper" where
  "save_to_jsonl instruction_pairs filename self =
     (let existing_count =
            (case files self filename of None \<Rightarrow> 0 | Some content \<Rightarrow> count_lines content);
          appended =
            (case files self filename of None \<Rightarrow> [] | Some content \<Rightarrow> content) @
            concat (map (\<lambda>pair. json_dumps pair @ newline) instruction_pairs);
          self1 = self\<lparr>files := (files self)(filename \<mapsto> appended)\<rparr>
      in emit (Print (''Added '' @ str_nat (length instruction_pairs) @
                      '' instruction pairs to '' @ filename @ '' (now contains '' @
                      str_nat (existing_count + length instruction_pairs) @
                      '' total entries)'')) self1)"


section \<open>Orchestration\<close>

text \<open>The loop of lines 181 to 193 over the links that are left.\<close>

fun process_links :: "env \<Rightarrow> int \<Rightarrow> string \<Rightarrow> string list \<Rightarrow> scraper \<Rightarrow> py_error + scraper" where
  "process_links env num_pairs_per_recipe output_filename [] self = Inr self"
| "process_links env num_pairs_per_recipe output_filename (recipe_url # rest) self =
     (let self1 = emit (Print (''Processing recipe: '' @ recipe_url)) self;
          self2 = self1\<lparr>url := Some recipe_url\<rparr>;
          self3 = self2\<lparr>visited_urls := insert recipe_url (visited_urls self2)\<rparr>
      in case scrape_website env self3 of
           Inl e \<Rightarrow> Inl e
         | Inr (text_content, self4) \<Rightarrow>
             (let self5 =
                    (case text_content of
                       None \<Rightarrow> self4
                     | Some t \<Rightarrow>
                         if t = [] then self4
                         else (case generate_instruction_pairs env t num_pairs_per_recipe self4 of
                                 (instruction_pairs, self') \<Rightarrow>
                                   save_to_jsonl instruction_pairs output_filename self'))
              in process_links env num_pairs_per_recipe output_filename rest
                   (emit (Sleep 2) self5)))"

definition process_multiple_recipes ::
  "env \<Rightarrow> int \<Rightarrow> int \<Rightarrow> string \<Rightarrow> scraper \<Rightarrow> py_error + scraper"
where
  "process_multiple_recipes env num_pairs_per_recipe max_recipes output_filename self =
     (case find_recipe_links env (base_url self) max_recipes self of
        Inl e \<Rightarrow> Inl e
      | Inr (recipe_links, self1) \<Rightarrow>
          process_links env num_pairs_per_recipe output_filename recipe_links self1)"


section \<open>Notions used by the properties\<close>

text \<open>The messages sent to the generation service, in order, as a trace records them.\<close>

fun chat_messages :: "event list \<Rightarrow> (string \<times> string) list" where
  "chat_messages [] = []"
| "chat_messages (ChatCreate system user # es) = (system, user) # chat_messages es"
| "chat_messages (e # es) = chat_messages es"

text \<open>A file content is line-ended when it is empty or its last line is terminated.\<close>

definition line_ended :: "string \<Rightarrow> bool" where
  "line_ended content = (content = [] \<or> last content = CHR 0x0A \<or> last content = CHR 0x0D)"

text \<open>A small concrete world: every request is answered with status 200, the page has
  the anchors \<^verbatim>\<open>/recipe/pasta\<close>, \<^verbatim>\<open>/about\<close> and \<^verbatim>\<open>/recipes/soup\<close> in this order, a
  relative reference is resolved against \<^verbatim>\<open>https://example.com\<close>, and the service
  answers with a well-formed reply. The scraper is the one a constructor call with the
  base URL \<^verbatim>\<open>example.com\<close> gives, before anything has happened.\<close>

definition demo_env :: env where
  "demo_env =
     \<lparr>requests_get = (\<lambda>t u. Response 200 ''page''),
      http_error_str = (\<lambda>status u. ''HTTP error''),
      find_all_a_href = (\<lambda>body. [''/recipe/pasta'', ''/about'', ''/recipes/soup'']),
      urljoin = (\<lambda>base h. Inr (''https://example.com'' @ h)),
      get_text = (\<lambda>body. ''Boil the pasta.''),
      chat_create = (\<lambda>t sys user. Message (Some ''INSTRUCTION: Cook INPUT: How? OUTPUT: Boil''))\<rparr>"

definition demo_scraper :: scraper where
  "demo_scraper =
     \<lparr>base_url = ''example.com'', visited_urls = {}, url = None, trace = [],
      files = (\<lambda>path. None)\<rparr>"

text \<open>The same world with a service whose first answer is an error.\<close>

definition flaky_env :: env where
  "flaky_env = demo_env\<lparr>chat_create :=
     (\<lambda>t sys user. if t = 0 then ApiException ''rate limit''
                    else Message (Some ''INSTRUCTION: Cook INPUT: How? OUTPUT: Boil''))\<rparr>"


text \<open>The scraper a constructor call with the base URL \<^verbatim>\<open>https://example.com\<close> gives.\<close>

definition site_scraper :: scraper where
  "site_scraper = demo_scraper\<lparr>base_url := ''https://example.com''\<rparr>"

text \<open>A successful status as section 6 of the specification has it: any 2xx status. The
  code never computes it; \<^verbatim>\<open>raise_for_status\<close> decides what a failure is.\<close>

definition success_status :: "nat \<Rightarrow> bool" where
  "success_status status = (200 \<le> status \<and> status < 300)"

section \<open>Properties of the string operations\<close>

lemma split_from_nonempty: "split_from sep s \<noteq> []"
  by (induction sep s rule: split_from.induct) (auto split: list.splits)

lemma occurrences_append_ge: "occurrences sub s \<le> occurrences sub (p @ s)"
  by (induction p) auto

lemma occurrences_sep_ge1: "sep \<noteq> [] \<Longrightarrow> 1 \<le> occurrences sep (a @ sep @ r)"
proof -
  assume "sep \<noteq> []"
  then obtain x xs where "sep = x # xs" by (cases sep) auto
  then have "1 \<le> occurrences sep (sep @ r)" by simp
  also have "\<dots> \<le> occurrences sep (a @ sep @ r)" by (rule occurrences_append_ge)
  finally show ?thesis .
qed

lemma split_from_no_occurrence: "occurrences sep s = 0 \<Longrightarrow> split_from sep s = [s]"
  by (induction s) (auto split: if_splits)

lemma split_from_sep_append: "sep \<noteq> [] \<Longrightarrow> split_from sep (sep @ r) = [] # split_from sep r"
  by (cases sep) auto

lemma replace_from_sep_append:
  "old \<noteq> [] \<Longrightarrow> replace_from old new (old @ r) = new @ replace_from old new r"
  by (cases old) auto

lemma length_split_from:
  assumes bf: "\<And>r. occurrences sep (sep @ r) = Suc (occurrences sep r)"
  shows "length (split_from sep s) = Suc (occurrences sep s)"
proof (induction s rule: length_induct)
  case (1 s)
  show ?case
  proof (cases s)
    case Nil
    then show ?thesis by simp
  next
    case (Cons c cs)
    show ?thesis
    proof (cases "sep \<noteq> [] \<and> prefix sep (c # cs)")
      case True
      then obtain r where r: "c # cs = sep @ r" by (auto simp: prefix_def)
      with True have shorter: "length r < length s" using Cons by (cases sep) auto
      have "split_from sep s = [] # split_from sep r"
        using True r Cons by (simp add: split_from_sep_append)
      moreover have "length (split_from sep r) = Suc (occurrences sep r)"
        using 1 shorter by blast
      moreover have "occurrences sep s = Suc (occurrences sep r)"
        using bf [of r] r Cons by simp
      ultimately show ?thesis by simp
    next
      case False
      have np: "\<not> prefix sep (c # cs)"
      proof
        assume p: "prefix sep (c # cs)"
        with False have "sep = []" by simp
        with bf [of "[]"] show False by simp
      qed
      have "length (split_from sep cs) = Suc (occurrences sep cs)"
        using 1 Cons by simp
      with False np Cons show ?thesis
        by (auto split: list.splits)
    qed
  qed
qed

lemma split_from_unique:
  assumes bf: "\<And>r. occurrences sep (sep @ r) = Suc (occurrences sep r)"
  shows "occurrences sep (a @ sep @ r) = 1 \<Longrightarrow> split_from sep (a @ sep @ r) = [a, r]"
proof (induction a)
  case Nil
  have ne: "sep \<noteq> []" using bf [of "[]"] by auto
  from Nil bf [of r] have "occurrences sep r = 0" by simp
  then have "split_from sep r = [r]" by (rule split_from_no_occurrence)
  moreover obtain x xs where "sep = x # xs" using ne by (cases sep) auto
  ultimately show ?case by simp
next
  case (Cons x a)
  have ne: "sep \<noteq> []" using bf [of "[]"] by auto
  have ge: "1 \<le> occurrences sep (a @ sep @ r)" using ne by (rule occurrences_sep_ge1)
  with Cons.prems have np: "\<not> prefix sep (x # a @ sep @ r)" and one: "occurrences sep (a @ sep @ r) = 1"
    by (auto split: if_splits)
  from Cons.IH [OF one] np show ?case by simp
qed

lemma replace_from_concat_split:
  "replace_from old [] s = concat (split_from old s)"
  by (induction old s rule: split_from.induct) (auto split: list.splits)

lemma occ_INPUT: "occurrences ''INPUT:'' (''INPUT:'' @ r) = Suc (occurrences ''INPUT:'' r)"
  by simp
lemma occ_OUTPUT: "occurrences ''OUTPUT:'' (''OUTPUT:'' @ r) = Suc (occurrences ''OUTPUT:'' r)"
  by simp
lemma occ_INSTRUCTION: "occurrences ''INSTRUCTION:'' (''INSTRUCTION:'' @ r) = Suc (occurrences ''INSTRUCTION:'' r)"
  by simp

lemma str_join_split_from: "sep \<noteq> [] \<Longrightarrow> str_join sep (split_from sep s) = s"
proof (induction s rule: length_induct)
  case (1 s)
  show ?case
  proof (cases s)
    case Nil then show ?thesis by simp
  next
    case (Cons c cs)
    show ?thesis
    proof (cases "prefix sep (c # cs)")
      case True
      then obtain r where r: "c # cs = sep @ r" by (auto simp: prefix_def)
      with 1 have shorter: "length r < length s" using Cons by (cases sep) auto
      have sp: "split_from sep s = [] # split_from sep r"
        using 1(2) r Cons by (simp add: split_from_sep_append)
      have "str_join sep (split_from sep r) = r" using 1 shorter by blast
      moreover obtain q qs where "split_from sep r = q # qs"
        using split_from_nonempty [of sep r] by (cases "split_from sep r") auto
      ultimately show ?thesis using sp r Cons by simp
    next
      case False
      have ih: "str_join sep (split_from sep cs) = cs" using 1 Cons by simp
      obtain q qs where q: "split_from sep cs = q # qs"
        using split_from_nonempty [of sep cs] by (cases "split_from sep cs") auto
      with ih have "str_join sep ((c # q) # qs) = c # cs" by (cases qs) auto
      with False q Cons show ?thesis by simp
    qed
  qed
qed

lemma trimmed_str_strip: "trimmed (str_strip s)"
proof -
  define t where "t = dropWhile isspace (rev s)"
  define u where "u = dropWhile isspace (rev t)"
  have su: "str_strip s = u" by (simp add: str_strip_def t_def u_def)
  have t: "t \<noteq> [] \<Longrightarrow> \<not> isspace (hd t)" unfolding t_def by (rule hd_dropWhile)
  show ?thesis
  proof (cases "u = []")
    case True
    then show ?thesis by (simp add: trimmed_def su)
  next
    case False
    then have h: "\<not> isspace (hd u)" unfolding u_def by (rule hd_dropWhile)
    from False have tn: "t \<noteq> []" by (auto simp: u_def)
    have "rev t = takeWhile isspace (rev t) @ u" by (simp add: u_def)
    then have "last (rev t) = last u"
      using False by (metis last_appendR)
    then have "last u = hd t" using tn by (simp add: last_rev)
    with t [OF tn] h show ?thesis by (simp add: trimmed_def su)
  qed
qed

lemma str_strip_surround:
  "\<exists>l r. s = l @ str_strip s @ r \<and> list_all isspace l \<and> list_all isspace r"
proof -
  define t where "t = dropWhile isspace (rev s)"
  define r where "r = rev (takeWhile isspace (rev s))"
  define l where "l = takeWhile isspace (rev t)"
  have "rev s = takeWhile isspace (rev s) @ t" by (simp add: t_def)
  then have "s = rev t @ r" by (metis r_def rev_append rev_rev_ident)
  moreover have "rev t = l @ str_strip s" by (simp add: l_def str_strip_def t_def)
  moreover have "list_all isspace l" unfolding l_def list_all_iff by (auto dest: set_takeWhileD)
  moreover have "list_all isspace r" unfolding r_def list_all_iff by (auto dest: set_takeWhileD)
  ultimately show ?thesis by auto
qed

lemma parse_content_no_record:
  "occurrences ''INPUT:'' reply \<noteq> 1 \<Longrightarrow> parse_content reply = Inr None"
proof -
  assume "occurrences ''INPUT:'' reply \<noteq> 1"
  moreover have "length (split_from ''INPUT:'' reply) = Suc (occurrences ''INPUT:'' reply)"
    by (rule length_split_from) simp
  ultimately show ?thesis by (simp add: parse_content_def str_split_def)
qed

lemma parse_content_record:
  assumes i: "occurrences ''INPUT:'' reply = 1" and o: "occurrences ''OUTPUT:'' reply = 1"
    and r: "reply = a @ ''INPUT:'' @ b @ ''OUTPUT:'' @ c"
  shows "parse_content reply =
    Inr (Some \<lparr>instruction = str_strip (str_replace a ''INSTRUCTION:'' ''''),
               input = str_strip b, output = str_strip c\<rparr>)"
proof -
  have s1: "split_from ''INPUT:'' reply = [a, b @ ''OUTPUT:'' @ c]"
    unfolding r by (rule split_from_unique) (use i r in simp_all)
  have "occurrences ''OUTPUT:'' (b @ ''OUTPUT:'' @ c) \<le> occurrences ''OUTPUT:'' reply"
    unfolding r using occurrences_append_ge [of "''OUTPUT:''" "b @ ''OUTPUT:'' @ c" "a @ ''INPUT:''"]
    by simp
  moreover have "1 \<le> occurrences ''OUTPUT:'' (b @ ''OUTPUT:'' @ c)"
    by (rule occurrences_sep_ge1) simp
  ultimately have "occurrences ''OUTPUT:'' (b @ ''OUTPUT:'' @ c) = 1" using o by simp
  then have s2: "split_from ''OUTPUT:'' (b @ ''OUTPUT:'' @ c) = [b, c]"
    by (rule split_from_unique [rotated]) simp
  show ?thesis using s1 s2 by (simp add: parse_content_def str_split_def)
qed


section \<open>Properties of the reply parser\<close>

text \<open>
  Claim C1, as the code has it. A reply in which \<^verbatim>\<open>INPUT:\<close> occurs zero times or more than
  once gives no record. A reply in which \<^verbatim>\<open>INPUT:\<close> and \<^verbatim>\<open>OUTPUT:\<close> each occur exactly
  once, the \<^verbatim>\<open>OUTPUT:\<close> after the \<^verbatim>\<open>INPUT:\<close>, gives exactly one record: its fields are
  the three parts around the two delimiters (the first with the label \<^verbatim>\<open>INSTRUCTION:\<close>
  replaced by nothing), each trimmed of leading and trailing whitespace.
\<close>

theorem parse_content_delimiters:
  "(occurrences ''INPUT:'' reply \<noteq> 1 \<longrightarrow> parse_content reply = Inr None) \<and>
   (occurrences ''INPUT:'' reply = 1 \<and> occurrences ''OUTPUT:'' reply = 1 \<and>
    reply = a @ ''INPUT:'' @ b @ ''OUTPUT:'' @ c \<longrightarrow>
      parse_content reply =
        Inr (Some \<lparr>instruction = str_strip (str_replace a ''INSTRUCTION:'' ''''),
                   input = str_strip b, output = str_strip c\<rparr>) \<and>
      trimmed (str_strip (str_replace a ''INSTRUCTION:'' '''')) \<and>
      trimmed (str_strip b) \<and> trimmed (str_strip c))"
proof (intro conjI impI)
  assume "occurrences ''INPUT:'' reply \<noteq> 1"
  then show "parse_content reply = Inr None" by (rule parse_content_no_record)
next
  assume "occurrences ''INPUT:'' reply = 1 \<and> occurrences ''OUTPUT:'' reply = 1 \<and>
    reply = a @ ''INPUT:'' @ b @ ''OUTPUT:'' @ c"
  then show "parse_content reply =
        Inr (Some \<lparr>instruction = str_strip (str_replace a ''INSTRUCTION:'' ''''),
                   input = str_strip b, output = str_strip c\<rparr>)"
    by (elim conjE) (rule parse_content_record)
qed (rule trimmed_str_strip)+

theorem parse_content_delimiters_witness:
  "occurrences ''INPUT:'' ''no labels'' \<noteq> 1 \<and>
   parse_content ''no labels'' = Inr None \<and>
   occurrences ''INPUT:'' ''INSTRUCTION: A INPUT: B OUTPUT: C '' = 1 \<and>
   occurrences ''OUTPUT:'' ''INSTRUCTION: A INPUT: B OUTPUT: C '' = 1 \<and>
   parse_content ''INSTRUCTION: A INPUT: B OUTPUT: C '' =
     Inr (Some \<lparr>instruction = ''A'', input = ''B'', output = ''C''\<rparr>)"
  using parse_content_delimiters [of "''no labels''"]
    parse_content_delimiters [of "''INSTRUCTION: A INPUT: B OUTPUT: C ''"
      "''INSTRUCTION: A ''" "'' B ''" "'' C ''"]
  by (simp add: str_strip_def str_replace_def isspace_def)

text \<open>
  Claim C1 as stated fails when the single \<^verbatim>\<open>OUTPUT:\<close> comes before the single
  \<^verbatim>\<open>INPUT:\<close>: both occur exactly once and no record is produced.
\<close>

theorem parse_content_output_first_counterexample:
  "occurrences ''INPUT:'' ''OUTPUT: y INPUT: x'' = 1 \<and>
   occurrences ''OUTPUT:'' ''OUTPUT: y INPUT: x'' = 1 \<and>
   parse_content ''OUTPUT: y INPUT: x'' = Inr None"
  by (simp add: parse_content_def str_split_def)

text \<open>
  Claim C10. In the text before the \<^verbatim>\<open>INPUT:\<close> delimiter every occurrence of
  \<^verbatim>\<open>INSTRUCTION:\<close> is removed: that text is its pieces joined by the label, there is one
  piece more than there are occurrences of the label, and the stored instruction is the
  pieces put together without any label, trimmed. So there is a reply whose stored
  instruction differs from the text with only a leading label removed.
\<close>

theorem instruction_label_replace_all:
  "(parse_content reply = Inr (Some p) \<longrightarrow>
      (let before = split_from ''INPUT:'' reply ! 0;
           pieces = split_from ''INSTRUCTION:'' before
       in before = str_join ''INSTRUCTION:'' pieces \<and>
          length pieces = Suc (occurrences ''INSTRUCTION:'' before) \<and>
          instruction p = str_strip (concat pieces))) \<and>
   (\<exists>reply' p'. parse_content reply' = Inr (Some p') \<and>
      instruction p' \<noteq> leading_label_only (split_from ''INPUT:'' reply' ! 0))"
proof -
  have general: "parse_content reply = Inr (Some p) \<longrightarrow>
      (let before = split_from ''INPUT:'' reply ! 0;
           pieces = split_from ''INSTRUCTION:'' before
       in before = str_join ''INSTRUCTION:'' pieces \<and>
          length pieces = Suc (occurrences ''INSTRUCTION:'' before) \<and>
          instruction p = str_strip (concat pieces))"
  proof
    assume ok: "parse_content reply = Inr (Some p)"
    have 1: "split_from ''INPUT:'' reply ! 0 =
        str_join ''INSTRUCTION:'' (split_from ''INSTRUCTION:'' (split_from ''INPUT:'' reply ! 0))"
      by (simp add: str_join_split_from)
    have 2: "length (split_from ''INSTRUCTION:'' (split_from ''INPUT:'' reply ! 0)) =
        Suc (occurrences ''INSTRUCTION:'' (split_from ''INPUT:'' reply ! 0))"
      by (rule length_split_from) simp
    have 3: "instruction p =
        str_strip (concat (split_from ''INSTRUCTION:'' (split_from ''INPUT:'' reply ! 0)))"
      using ok
      by (auto simp: parse_content_def str_split_def str_replace_def Let_def
            replace_from_concat_split split: if_splits)
    show "let before = split_from ''INPUT:'' reply ! 0;
           pieces = split_from ''INSTRUCTION:'' before
       in before = str_join ''INSTRUCTION:'' pieces \<and>
          length pieces = Suc (occurrences ''INSTRUCTION:'' before) \<and>
          instruction p = str_strip (concat pieces)"
      unfolding Let_def using 1 2 3 by blast
  qed
  have "parse_content ''INSTRUCTION: a INSTRUCTION: b INPUT: x OUTPUT: y'' =
      Inr (Some \<lparr>instruction = ''a  b'', input = ''x'', output = ''y''\<rparr>)"
    by (simp add: parse_content_def str_split_def str_strip_def str_replace_def isspace_def)
  moreover have "leading_label_only (split_from ''INPUT:''
       ''INSTRUCTION: a INSTRUCTION: b INPUT: x OUTPUT: y'' ! 0) = ''a INSTRUCTION: b''"
    by (simp add: leading_label_only_def str_strip_def startswith_def isspace_def)
  ultimately have "\<exists>reply' p'. parse_content reply' = Inr (Some p') \<and>
      instruction p' \<noteq> leading_label_only (split_from ''INPUT:'' reply' ! 0)"
    by (intro exI [of _ "''INSTRUCTION: a INSTRUCTION: b INPUT: x OUTPUT: y''"]
          exI [of _ "\<lparr>instruction = ''a  b'', input = ''x'', output = ''y''\<rparr>"]) simp
  with general show ?thesis by blast
qed

theorem instruction_label_replace_all_witness:
  "parse_content ''INSTRUCTION: a INSTRUCTION: b INPUT: x OUTPUT: y'' =
      Inr (Some \<lparr>instruction = ''a  b'', input = ''x'', output = ''y''\<rparr>) \<and>
   occurrences ''INSTRUCTION:'' ''INSTRUCTION: a INSTRUCTION: b '' = 2 \<and>
   ''a  b'' = str_strip (concat (split_from ''INSTRUCTION:'' ''INSTRUCTION: a INSTRUCTION: b ''))"
proof -
  have ok: "parse_content ''INSTRUCTION: a INSTRUCTION: b INPUT: x OUTPUT: y'' =
      Inr (Some \<lparr>instruction = ''a  b'', input = ''x'', output = ''y''\<rparr>)"
    by (simp add: parse_content_def str_split_def str_strip_def str_replace_def isspace_def)
  have sp: "split_from ''INPUT:'' ''INSTRUCTION: a INSTRUCTION: b INPUT: x OUTPUT: y'' ! 0 =
      ''INSTRUCTION: a INSTRUCTION: b ''"
    by simp
  from instruction_label_replace_all
    [of "''INSTRUCTION: a INSTRUCTION: b INPUT: x OUTPUT: y''"
        "\<lparr>instruction = ''a  b'', input = ''x'', output = ''y''\<rparr>"] ok
  have "length (split_from ''INSTRUCTION:'' ''INSTRUCTION: a INSTRUCTION: b '') =
          Suc (occurrences ''INSTRUCTION:'' ''INSTRUCTION: a INSTRUCTION: b '') \<and>
        ''a  b'' = str_strip (concat (split_from ''INSTRUCTION:'' ''INSTRUCTION: a INSTRUCTION: b ''))"
    unfolding Let_def sp by simp
  then show ?thesis using ok by simp
qed


section \<open>Properties of link discovery\<close>

lemma length_set_add: "length (set_add x xs) \<le> Suc (length xs)"
  by (simp add: set_add_def)

lemma set_set_add: "set (set_add x xs) = insert x (set xs)"
  by (auto simp: set_add_def)

lemma distinct_set_add: "distinct xs \<Longrightarrow> distinct (set_add x xs)"
  by (simp add: set_add_def)

lemma scan_links_sound:
  "scan_links env self page_url max_links links acc = Inr r \<Longrightarrow> x \<in> set r \<Longrightarrow>
   x \<in> set acc \<or>
   (\<exists>link \<in> set links. absolute_href env page_url link = Inr x \<and> is_recipe_link self x)"
proof (induction links arbitrary: acc)
  case Nil
  then show ?case by simp
next
  case (Cons link links)
  show ?case
  proof (cases "absolute_href env page_url link")
    case (Inl e)
    with Cons.prems show ?thesis by simp
  next
    case (Inr href)
    show ?thesis
    proof (cases "is_recipe_link self href")
      case False
      with Inr Cons.prems have "scan_links env self page_url max_links links acc = Inr r" by simp
      from Cons.IH [OF this Cons.prems(2)] show ?thesis by auto
    next
      case True
      show ?thesis
      proof (cases "max_links \<le> int (length (set_add href acc))")
        case stop: True
        with True Inr Cons.prems have "r = set_add href acc" by simp
        with Cons.prems(2) True Inr show ?thesis by (auto simp: set_set_add)
      next
        case go: False
        with True Inr Cons.prems
        have "scan_links env self page_url max_links links (set_add href acc) = Inr r" by simp
        from Cons.IH [OF this Cons.prems(2)] True Inr show ?thesis
          by (auto simp: set_set_add)
      qed
    qed
  qed
qed

lemma scan_links_distinct:
  "scan_links env self page_url max_links links acc = Inr r \<Longrightarrow> distinct acc \<Longrightarrow> distinct r"
  by (induction links arbitrary: acc)
     (auto simp: Let_def distinct_set_add split: sum.splits if_splits)

lemma scan_links_length_max:
  "scan_links env self page_url max_links links acc = Inr r \<Longrightarrow>
   int (length r) \<le> max max_links (int (length acc) + 1)"
proof (induction links arbitrary: acc)
  case Nil
  then show ?case by simp
next
  case (Cons link links)
  show ?case
  proof (cases "absolute_href env page_url link")
    case (Inl e)
    with Cons.prems show ?thesis by simp
  next
    case (Inr href)
    show ?thesis
    proof (cases "is_recipe_link self href")
      case False
      with Inr Cons.prems have "scan_links env self page_url max_links links acc = Inr r" by simp
      from Cons.IH [OF this] show ?thesis .
    next
      case True
      have le: "int (length (set_add href acc)) \<le> int (length acc) + 1"
        using length_set_add [of href acc] by simp
      show ?thesis
      proof (cases "max_links \<le> int (length (set_add href acc))")
        case stop: True
        with True Inr Cons.prems have "r = set_add href acc" by simp
        with le show ?thesis by simp
      next
        case go: False
        with True Inr Cons.prems
        have "scan_links env self page_url max_links links (set_add href acc) = Inr r" by simp
        from Cons.IH [OF this] go show ?thesis by simp
      qed
    qed
  qed
qed

lemma find_recipe_links_state:
  "find_recipe_links env page_url max_links self = Inr (links, self') \<Longrightarrow>
   visited_urls self' = visited_urls self \<and> base_url self' = base_url self \<and>
   url self' = url self \<and> files self' = files self"
  by (auto simp: find_recipe_links_def emit_def Let_def split: http_result.splits if_splits sum.splits)

lemma is_recipe_link_emit [simp]: "is_recipe_link (emit e self) href = is_recipe_link self href"
  by (simp add: is_recipe_link_def emit_def)

lemma find_recipe_links_not_visited:
  assumes "find_recipe_links env page_url max_links self = Inr (links, self')" and "x \<in> set links"
  shows "is_recipe_link self x"
proof -
  from assms obtain status body where
    sc: "scan_links env (emit (HttpGet page_url) self) page_url max_links (find_all_a_href env body) [] = Inr links"
    by (auto simp: find_recipe_links_def Let_def split: http_result.splits if_splits sum.splits)
  from scan_links_sound [OF sc assms(2)] show ?thesis by auto
qed

text \<open>What holds of every result of \<^verbatim>\<open>find_recipe_links\<close>: each returned URL passed
  the test of lines 50 to 52 and is the absolute form of an anchor of the fetched page;
  the result has no repetition; its length is at most the larger of \<open>max_links\<close>
  and one.\<close>

lemma find_recipe_links_result:
  assumes "find_recipe_links env page_url max_links self = Inr (links, self')"
  shows "\<forall>x \<in> set links. is_recipe_link self x \<and>
           (\<exists>status body link.
              requests_get env (length (trace self)) page_url = Response status body \<and>
              link \<in> set (find_all_a_href env body) \<and>
              absolute_href env page_url link = Inr x)"
    and "int (length links) \<le> max max_links 1"
    and "distinct links"
proof -
  consider (failed) "links = []"
    | (scanned) status body where
        "requests_get env (length (trace self)) page_url = Response status body"
        "scan_links env (emit (HttpGet page_url) self) page_url max_links
           (find_all_a_href env body) [] = Inr links"
    using assms
    by (auto simp: find_recipe_links_def Let_def split: http_result.splits if_splits sum.splits)
  note cases = this
  show "\<forall>x \<in> set links. is_recipe_link self x \<and>
           (\<exists>status body link.
              requests_get env (length (trace self)) page_url = Response status body \<and>
              link \<in> set (find_all_a_href env body) \<and>
              absolute_href env page_url link = Inr x)"
  proof (cases rule: cases)
    case failed
    then show ?thesis by simp
  next
    case (scanned status body)
    show ?thesis
    proof
      fix x assume "x \<in> set links"
      from scan_links_sound [OF scanned(2) this] scanned(1)
      show "is_recipe_link self x \<and>
           (\<exists>status body link.
              requests_get env (length (trace self)) page_url = Response status body \<and>
              link \<in> set (find_all_a_href env body) \<and>
              absolute_href env page_url link = Inr x)"
        by auto
    qed
  qed
  show "int (length links) \<le> max max_links 1"
  proof (cases rule: cases)
    case failed
    then show ?thesis by simp
  next
    case (scanned status body)
    from scan_links_length_max [OF scanned(2)] show ?thesis by simp
  qed
  show "distinct links"
  proof (cases rule: cases)
    case failed
    then show ?thesis by simp
  next
    case (scanned status body)
    from scan_links_distinct [OF scanned(2)] show ?thesis by simp
  qed
qed

lemma not_recipe_about:
  "base_url self = ''example.com'' \<Longrightarrow> \<not> is_recipe_link self ''https://example.com/about''"
  by (simp add: is_recipe_link_def recipe_patterns_def str_lower_def lower_char_def)

lemma recipe_pasta:
  "base_url self = ''example.com'' \<Longrightarrow> ''https://example.com/recipe/pasta'' \<notin> visited_urls self \<Longrightarrow>
   is_recipe_link self ''https://example.com/recipe/pasta''"
  by (simp add: is_recipe_link_def recipe_patterns_def str_lower_def lower_char_def)

lemma recipe_soup:
  "base_url self = ''example.com'' \<Longrightarrow> ''https://example.com/recipes/soup'' \<notin> visited_urls self \<Longrightarrow>
   is_recipe_link self ''https://example.com/recipes/soup''"
  by (simp add: is_recipe_link_def recipe_patterns_def str_lower_def lower_char_def)

lemma scan_links_three:
  assumes uj: "\<forall>h \<in> {''/recipe/pasta'', ''/about'', ''/recipes/soup''}.
                 urljoin env page_url h = Inr (''https://example.com'' @ h)"
    and base: "base_url self = ''example.com''"
    and nv1: "''https://example.com/recipe/pasta'' \<notin> visited_urls self"
    and nv2: "''https://example.com/recipes/soup'' \<notin> visited_urls self"
  shows "set hs \<subseteq> {''/recipe/pasta'', ''/about'', ''/recipes/soup''} \<Longrightarrow>
    List.find (\<lambda>h. h \<noteq> ''/about'') hs = Some link \<Longrightarrow>
    scan_links env self page_url 1 hs [] = Inr [''https://example.com'' @ link]"
proof (induction hs)
  case Nil
  then show ?case by simp
next
  case (Cons h hs)
  from Cons.prems(1) consider "h = ''/recipe/pasta''" | "h = ''/about''" | "h = ''/recipes/soup''"
    by auto
  then show ?case
  proof cases
    case 1
    with uj have "absolute_href env page_url h = Inr ''https://example.com/recipe/pasta''"
      by (simp add: absolute_href_def startswith_def)
    with 1 Cons.prems(2) recipe_pasta [OF base nv1] show ?thesis
      by (simp add: set_add_def)
  next
    case 2
    with uj have "absolute_href env page_url h = Inr ''https://example.com/about''"
      by (simp add: absolute_href_def startswith_def)
    moreover from 2 Cons.prems have "scan_links env self page_url 1 hs [] = Inr [''https://example.com'' @ link]"
      by (intro Cons.IH) auto
    ultimately show ?thesis using not_recipe_about [OF base] by simp
  next
    case 3
    with uj have "absolute_href env page_url h = Inr ''https://example.com/recipes/soup''"
      by (simp add: absolute_href_def startswith_def)
    with 3 Cons.prems(2) recipe_soup [OF base nv2] show ?thesis
      by (simp add: set_add_def)
  qed
qed

text \<open>
  Claim C2, at the requested maximum zero. The length of \<^verbatim>\<open>recipe_links\<close> is compared
  with \<open>max_links\<close> only after a link has been added, so a page with a matching anchor
  gives one link where at most zero were asked for.
\<close>

theorem find_recipe_links_max_zero:
  "find_recipe_links demo_env ''https://example.com/'' 0 demo_scraper =
     Inr ([''https://example.com/recipe/pasta''], emit (HttpGet ''https://example.com/'') demo_scraper)"
  by (simp add: find_recipe_links_def demo_env_def demo_scraper_def raises_for_status_def
        absolute_href_def startswith_def is_recipe_link_def recipe_patterns_def
        str_lower_def lower_char_def set_add_def emit_def)

text \<open>
  Claim C5. A URL that is in the visited set when \<^verbatim>\<open>find_recipe_links\<close> is called is
  not among the links the call returns; the test is membership of the very string.
\<close>

theorem visited_never_rediscovered:
  "find_recipe_links env page_url max_links self = Inr (links, self') \<Longrightarrow>
   u \<in> visited_urls self \<Longrightarrow> u \<notin> set links"
  using find_recipe_links_not_visited [of env page_url max_links self links self' u]
  by (auto simp: is_recipe_link_def)

theorem visited_never_rediscovered_witness:
  "''https://example.com/recipe/pasta'' \<in>
     visited_urls (demo_scraper\<lparr>visited_urls := {''https://example.com/recipe/pasta''}\<rparr>) \<and>
   find_recipe_links demo_env ''https://example.com/'' 10
       (demo_scraper\<lparr>visited_urls := {''https://example.com/recipe/pasta''}\<rparr>) =
     Inr ([''https://example.com/recipes/soup''],
          emit (HttpGet ''https://example.com/'')
            (demo_scraper\<lparr>visited_urls := {''https://example.com/recipe/pasta''}\<rparr>)) \<and>
   ''https://example.com/recipe/pasta'' \<notin> set [''https://example.com/recipes/soup'']"
proof -
  have run: "find_recipe_links demo_env ''https://example.com/'' 10
       (demo_scraper\<lparr>visited_urls := {''https://example.com/recipe/pasta''}\<rparr>) =
     Inr ([''https://example.com/recipes/soup''],
          emit (HttpGet ''https://example.com/'')
            (demo_scraper\<lparr>visited_urls := {''https://example.com/recipe/pasta''}\<rparr>))"
    by (simp add: find_recipe_links_def demo_env_def demo_scraper_def raises_for_status_def
        absolute_href_def startswith_def is_recipe_link_def recipe_patterns_def
        str_lower_def lower_char_def set_add_def emit_def)
  have mem: "''https://example.com/recipe/pasta'' \<in>
     visited_urls (demo_scraper\<lparr>visited_urls := {''https://example.com/recipe/pasta''}\<rparr>)"
    by simp
  from visited_never_rediscovered [OF run mem] run mem show ?thesis by blast
qed

text \<open>
  Claim C7, as the code has it. When \<^verbatim>\<open>requests.get\<close> raises, or the response has a
  status from 400 to 599, for which \<^verbatim>\<open>raise_for_status\<close> raises, the exception is
  caught: the call returns the empty list, and what it did is the request followed by
  one printed line with the error.
\<close>

theorem find_recipe_links_fetch_failure:
  "(requests_get env (length (trace self)) page_url = RequestException e \<longrightarrow>
      find_recipe_links env page_url max_links self =
        Inr ([], self\<lparr>trace := trace self @
               [HttpGet page_url, Print (''Error finding recipe links: '' @ e)]\<rparr>)) \<and>
   (requests_get env (length (trace self)) page_url = Response status body \<and>
    raises_for_status status \<longrightarrow>
      find_recipe_links env page_url max_links self =
        Inr ([], self\<lparr>trace := trace self @
               [HttpGet page_url,
                Print (''Error finding recipe links: '' @
                       http_error_str env status page_url)]\<rparr>))"
  by (simp add: find_recipe_links_def emit_def)

theorem find_recipe_links_fetch_failure_witness:
  "find_recipe_links (demo_env\<lparr>requests_get := (\<lambda>t u. RequestException ''timed out'')\<rparr>)
       ''https://example.com/'' 10 demo_scraper =
     Inr ([], demo_scraper\<lparr>trace :=
            [HttpGet ''https://example.com/'',
             Print ''Error finding recipe links: timed out'']\<rparr>) \<and>
   raises_for_status 404 \<and>
   find_recipe_links (demo_env\<lparr>requests_get := (\<lambda>t u. Response 404 ''gone'')\<rparr>)
       ''https://example.com/'' 10 demo_scraper =
     Inr ([], demo_scraper\<lparr>trace :=
            [HttpGet ''https://example.com/'',
             Print ''Error finding recipe links: HTTP error'']\<rparr>)"
  using find_recipe_links_fetch_failure
          [of "demo_env\<lparr>requests_get := (\<lambda>t u. RequestException ''timed out'')\<rparr>"
              demo_scraper "''https://example.com/''" "''timed out''" 10 404 "''gone''"]
        find_recipe_links_fetch_failure
          [of "demo_env\<lparr>requests_get := (\<lambda>t u. Response 404 ''gone'')\<rparr>"
              demo_scraper "''https://example.com/''" "''timed out''" 10 404 "''gone''"]
  by (simp add: demo_env_def demo_scraper_def raises_for_status_def)

text \<open>
  Claim C7 as stated fails for a status that is not a success and for which
  \<^verbatim>\<open>raise_for_status\<close> does not raise: a response with status 300 is parsed like a
  successful one, nothing is printed and the recipe links of its body are returned.
\<close>

theorem find_recipe_links_status_300_counterexample:
  "\<not> success_status 300 \<and>
   find_recipe_links (demo_env\<lparr>requests_get := (\<lambda>t u. Response 300 ''page'')\<rparr>)
       ''https://example.com/'' 10 demo_scraper =
     Inr ([''https://example.com/recipe/pasta'', ''https://example.com/recipes/soup''],
          demo_scraper\<lparr>trace := [HttpGet ''https://example.com/'']\<rparr>)"
  by (simp add: success_status_def find_recipe_links_def demo_env_def demo_scraper_def
        raises_for_status_def absolute_href_def startswith_def is_recipe_link_def
        recipe_patterns_def str_lower_def lower_char_def set_add_def emit_def)

text \<open>
  Claim C8. The page has exactly the anchors \<^verbatim>\<open>/recipe/pasta\<close>, \<^verbatim>\<open>/about\<close> and
  \<^verbatim>\<open>/recipes/soup\<close>, in any order; they resolve against \<^verbatim>\<open>https://example.com\<close>; the
  base URL is \<^verbatim>\<open>example.com\<close> and neither recipe URL has been visited. With
  \<open>max_links = 1\<close> the result is the one-element list with the absolute form of the
  first anchor in document order that is not \<^verbatim>\<open>/about\<close>, which is one of the two recipe
  anchors.
\<close>

theorem discovery_scenario:
  assumes "requests_get env (length (trace self)) page_url = Response status body"
    and "\<not> raises_for_status status"
    and "set (find_all_a_href env body) = {''/recipe/pasta'', ''/about'', ''/recipes/soup''}"
    and "\<forall>h \<in> {''/recipe/pasta'', ''/about'', ''/recipes/soup''}.
           urljoin env page_url h = Inr (''https://example.com'' @ h)"
    and "base_url self = ''example.com''"
    and "''https://example.com/recipe/pasta'' \<notin> visited_urls self"
    and "''https://example.com/recipes/soup'' \<notin> visited_urls self"
  shows "\<exists>link. List.find (\<lambda>h. h \<noteq> ''/about'') (find_all_a_href env body) = Some link \<and>
           link \<in> {''/recipe/pasta'', ''/recipes/soup''} \<and>
           find_recipe_links env page_url 1 self =
             Inr ([''https://example.com'' @ link], emit (HttpGet page_url) self)"
proof -
  let ?hs = "find_all_a_href env body"
  have "''/recipe/pasta'' \<in> set ?hs" using assms(3) by simp
  then have "List.find (\<lambda>h. h \<noteq> ''/about'') ?hs \<noteq> None"
    by (auto simp: find_None_iff)
  then obtain link where f: "List.find (\<lambda>h. h \<noteq> ''/about'') ?hs = Some link" by auto
  then have "link \<in> set ?hs" "link \<noteq> ''/about''" by (auto simp: find_Some_iff)
  with assms(3) have mem: "link \<in> {''/recipe/pasta'', ''/recipes/soup''}" by auto
  have "scan_links env (emit (HttpGet page_url) self) page_url 1 ?hs [] =
          Inr [''https://example.com'' @ link]"
    using assms(3) f
    by (intro scan_links_three) (use assms in \<open>simp_all add: emit_def\<close>)
  with assms(1,2) f mem show ?thesis
    by (simp add: find_recipe_links_def Let_def)
qed

theorem discovery_scenario_witness:
  "find_recipe_links demo_env ''https://example.com/'' 1 demo_scraper =
     Inr ([''https://example.com/recipe/pasta''], emit (HttpGet ''https://example.com/'') demo_scraper)"
  using discovery_scenario [of demo_env demo_scraper "''https://example.com/''" 200 "''page''"]
  by (simp add: demo_env_def demo_scraper_def raises_for_status_def)


section \<open>Properties of pair generation\<close>

lemma chat_messages_append: "chat_messages (xs @ ys) = chat_messages xs @ chat_messages ys"
  by (induction xs rule: chat_messages.induct) auto

lemma attempt_effect:
  "attempt env text_content self ps = (ps', self') \<Longrightarrow>
   length ps' \<le> Suc (length ps) \<and>
   chat_messages (trace self') =
     chat_messages (trace self) @ [(system_prompt, user_message text_content)]"
  by (auto simp: attempt_def emit_def Let_def chat_messages_append
      split: completion.splits sum.splits option.splits)

lemma attempts_effect:
  "attempts env text_content n self ps = (ps', self') \<Longrightarrow>
   length ps' \<le> length ps + n \<and>
   chat_messages (trace self') =
     chat_messages (trace self) @ replicate n (system_prompt, user_message text_content)"
proof (induction n arbitrary: self ps)
  case 0
  then show ?case by simp
next
  case (Suc n)
  obtain ps1 self1 where a: "attempt env text_content self ps = (ps1, self1)"
    by (cases "attempt env text_content self ps")
  with Suc.prems have "attempts env text_content n self1 ps1 = (ps', self')" by simp
  from Suc.IH [OF this] attempt_effect [OF a] show ?case
    by simp
qed

lemma attempt_api_exception:
  "chat_create env (length (trace self)) system_prompt (user_message text_content) =
     ApiException e \<Longrightarrow>
   attempt env text_content self ps =
     (ps, self\<lparr>trace := trace self @
            [ChatCreate system_prompt (user_message text_content),
             Print (''Error generating instruction pair: '' @ e)]\<rparr>)"
  by (simp add: attempt_def emit_def)

lemma attempt_parse_mismatch:
  "chat_create env (length (trace self)) system_prompt (user_message text_content) =
     Message (Some reply) \<Longrightarrow> parse_content reply = Inr None \<Longrightarrow>
   attempt env text_content self ps =
     (ps, self\<lparr>trace := trace self @
            [ChatCreate system_prompt (user_message text_content)]\<rparr>)"
  by (simp add: attempt_def emit_def)

lemma parse_demo_reply:
  "parse_content ''INSTRUCTION: Cook INPUT: How? OUTPUT: Boil'' =
     Inr (Some \<lparr>instruction = ''Cook'', input = ''How?'', output = ''Boil''\<rparr>)"
  by (simp add: parse_content_def str_split_def str_strip_def str_replace_def isspace_def)

lemma flaky_run:
  "generate_instruction_pairs flaky_env ''pasta'' 2 demo_scraper =
     ([\<lparr>instruction = ''Cook'', input = ''How?'', output = ''Boil''\<rparr>],
      demo_scraper\<lparr>trace :=
        [ChatCreate system_prompt (user_message ''pasta''),
         Print ''Error generating instruction pair: rate limit'',
         ChatCreate system_prompt (user_message ''pasta'')]\<rparr>)"
  by (simp add: generate_instruction_pairs_def numeral_2_eq_2 attempt_def emit_def
        flaky_env_def demo_env_def demo_scraper_def parse_demo_reply)

text \<open>
  Claim C3. For a text longer than 2000 characters the user message is the fixed head,
  the first 2000 characters of the text and the fixed tail: it is the same message
  whatever follows these 2000 characters, and every request that
  \<^verbatim>\<open>generate_instruction_pairs\<close> sends carries exactly this user message.
\<close>

theorem prompt_embeds_first_2000:
  "2000 < length text_content \<Longrightarrow>
   user_message text_content = user_head @ take 2000 text_content @ user_tail \<and>
   length (take 2000 text_content) = 2000 \<and>
   prefix (take 2000 text_content) text_content \<and>
   user_message (take 2000 text_content @ other) = user_message text_content \<and>
   chat_messages (trace (snd (generate_instruction_pairs env text_content num_pairs self))) =
     chat_messages (trace self) @
     replicate (nat num_pairs)
       (system_prompt, user_head @ take 2000 text_content @ user_tail)"
proof -
  assume len: "2000 < length text_content"
  obtain ps self' where g: "attempts env text_content (nat num_pairs) self [] = (ps, self')"
    by (cases "attempts env text_content (nat num_pairs) self []")
  from attempts_effect [OF g] g len show ?thesis
    by (simp add: generate_instruction_pairs_def user_message_def take_is_prefix)
qed

theorem prompt_embeds_first_2000_witness:
  "2000 < length (replicate 2001 (CHR ''a'')) \<and>
   user_message (replicate 2001 (CHR ''a'')) = user_head @ replicate 2000 (CHR ''a'') @ user_tail"
  using prompt_embeds_first_2000 [of "replicate 2001 (CHR ''a'')"]
  by simp

text \<open>
  Claim C6. For a count \<open>num_pairs\<close> that is not negative,
  \<^verbatim>\<open>generate_instruction_pairs\<close> returns at most \<open>num_pairs\<close> records and sends exactly
  \<open>num_pairs\<close> requests, whatever the service answers. An attempt in which the service
  raises ends with the records unchanged and the error printed; an attempt whose reply
  does not parse ends with the records unchanged; the next attempt follows either.
\<close>

theorem generate_instruction_pairs_attempts:
  "(0 \<le> num_pairs \<and>
    generate_instruction_pairs env text_content num_pairs self = (instruction_pairs, self') \<longrightarrow>
      int (length instruction_pairs) \<le> num_pairs \<and>
      chat_messages (trace self') =
        chat_messages (trace self) @
        replicate (nat num_pairs) (system_prompt, user_message text_content)) \<and>
   (chat_create env (length (trace self)) system_prompt (user_message text_content) =
      ApiException e \<longrightarrow>
      attempt env text_content self ps =
        (ps, self\<lparr>trace := trace self @
               [ChatCreate system_prompt (user_message text_content),
                Print (''Error generating instruction pair: '' @ e)]\<rparr>)) \<and>
   (chat_create env (length (trace self)) system_prompt (user_message text_content) =
      Message (Some reply) \<and> parse_content reply = Inr None \<longrightarrow>
      attempt env text_content self ps =
        (ps, self\<lparr>trace := trace self @
               [ChatCreate system_prompt (user_message text_content)]\<rparr>))"
  using attempts_effect [of env text_content "nat num_pairs" self "[]" instruction_pairs self']
    attempt_api_exception [of env self text_content e ps]
    attempt_parse_mismatch [of env self text_content reply ps]
  by (auto simp: generate_instruction_pairs_def)

theorem generate_instruction_pairs_attempts_witness:
  "(0::int) \<le> 2 \<and>
   generate_instruction_pairs flaky_env ''pasta'' 2 demo_scraper =
     ([\<lparr>instruction = ''Cook'', input = ''How?'', output = ''Boil''\<rparr>],
      demo_scraper\<lparr>trace :=
        [ChatCreate system_prompt (user_message ''pasta''),
         Print ''Error generating instruction pair: rate limit'',
         ChatCreate system_prompt (user_message ''pasta'')]\<rparr>) \<and>
   chat_messages
     [ChatCreate system_prompt (user_message ''pasta''),
      Print ''Error generating instruction pair: rate limit'',
      ChatCreate system_prompt (user_message ''pasta'')] =
     replicate 2 (system_prompt, user_message ''pasta'') \<and>
   attempt flaky_env ''pasta'' demo_scraper [] =
     ([], demo_scraper\<lparr>trace :=
            [ChatCreate system_prompt (user_message ''pasta''),
             Print ''Error generating instruction pair: rate limit'']\<rparr>) \<and>
   parse_content ''no labels'' = Inr None \<and>
   attempt (demo_env\<lparr>chat_create := (\<lambda>t sys user. Message (Some ''no labels''))\<rparr>)
       ''pasta'' demo_scraper [] =
     ([], demo_scraper\<lparr>trace := [ChatCreate system_prompt (user_message ''pasta'')]\<rparr>)"
proof -
  have p: "parse_content ''no labels'' = Inr None"
    by (simp add: parse_content_def str_split_def)
  from generate_instruction_pairs_attempts
         [of 2 flaky_env "''pasta''" demo_scraper
             "[\<lparr>instruction = ''Cook'', input = ''How?'', output = ''Boil''\<rparr>]"
             "demo_scraper\<lparr>trace :=
                [ChatCreate system_prompt (user_message ''pasta''),
                 Print ''Error generating instruction pair: rate limit'',
                 ChatCreate system_prompt (user_message ''pasta'')]\<rparr>"
             "''rate limit''" "[]" "''no labels''"]
       generate_instruction_pairs_attempts
         [of 2 "demo_env\<lparr>chat_create := (\<lambda>t sys user. Message (Some ''no labels''))\<rparr>"
             "''pasta''" demo_scraper "[]" demo_scraper "''rate limit''" "[]" "''no labels''"]
       flaky_run p
  show ?thesis
    by (simp add: flaky_env_def demo_env_def demo_scraper_def)
qed


section \<open>Properties of the dataset writer\<close>

lemma hex_digit_printable: "hex_digit n \<noteq> CHR 0x0A \<and> hex_digit n \<noteq> CHR 0x0D"
proof (cases "n < 16")
  case True
  then have "''0123456789abcdef'' ! n \<in> set ''0123456789abcdef''"
    by (intro nth_mem) simp
  with True show ?thesis by (auto simp: hex_digit_def)
next
  case False
  then show ?thesis by (simp add: hex_digit_def)
qed

lemma json_escape_char_no_newline:
  "CHR 0x0A \<notin> set (json_escape_char c) \<and> CHR 0x0D \<notin> set (json_escape_char c)"
  using hex_digit_printable [of "of_char c div 16"] hex_digit_printable [of "of_char c mod 16"]
  by (auto simp: json_escape_char_def Let_def)

lemma json_string_no_newline:
  "CHR 0x0A \<notin> set (json_string s) \<and> CHR 0x0D \<notin> set (json_string s)"
  using json_escape_char_no_newline by (auto simp: json_string_def)

lemma json_dumps_no_newline:
  "CHR 0x0A \<notin> set (json_dumps p) \<and> CHR 0x0D \<notin> set (json_dumps p)"
  using json_string_no_newline by (auto simp: json_dumps_def)

lemma json_dumps_nonempty: "json_dumps p \<noteq> []"
  by (simp add: json_dumps_def)

lemma count_lines_one_line:
  "CHR 0x0A \<notin> set l \<Longrightarrow> CHR 0x0D \<notin> set l \<Longrightarrow> count_lines (l @ [CHR 0x0A]) = 1"
  by (induction l rule: count_lines.induct) auto

lemma count_lines_append:
  "content \<noteq> [] \<Longrightarrow> last content = CHR 0x0A \<or> last content = CHR 0x0D \<Longrightarrow>
   s \<noteq> [] \<Longrightarrow> hd s \<noteq> CHR 0x0A \<Longrightarrow>
   count_lines (content @ s) = count_lines content + count_lines s"
proof (induction content rule: count_lines.induct)
  case 1
  then show ?case by simp
next
  case (2 c)
  then show ?case by (cases s) auto
next
  case (3 c d cs)
  then show ?case by (auto split: if_splits)
qed

lemma count_lines_append_line:
  assumes "line_ended content" and "CHR 0x0A \<notin> set l" and "CHR 0x0D \<notin> set l" and "l \<noteq> []"
  shows "count_lines (content @ l @ [CHR 0x0A]) = count_lines content + 1"
proof (cases "content = []")
  case True
  with assms show ?thesis by (simp add: count_lines_one_line)
next
  case False
  have "hd (l @ [CHR 0x0A]) \<noteq> CHR 0x0A" using assms(2,4) by (cases l) auto
  with False assms(1) have "count_lines (content @ l @ [CHR 0x0A]) =
      count_lines content + count_lines (l @ [CHR 0x0A])"
    by (intro count_lines_append) (auto simp: line_ended_def)
  with assms show ?thesis by (simp add: count_lines_one_line)
qed

lemma count_lines_append_records:
  "line_ended content \<Longrightarrow>
   count_lines (content @ concat (map (\<lambda>pair. json_dumps pair @ newline) ps)) =
     count_lines content + length ps"
proof (induction ps arbitrary: content)
  case Nil
  then show ?case by simp
next
  case (Cons p ps)
  have ended: "line_ended (content @ json_dumps p @ newline)"
    by (simp add: line_ended_def newline_def)
  have "count_lines (content @ json_dumps p @ newline) = count_lines content + 1"
    unfolding newline_def using Cons.prems json_dumps_no_newline [of p] json_dumps_nonempty [of p]
    by (intro count_lines_append_line) auto
  with Cons.IH [OF ended] show ?case by simp
qed

lemma json_dumps_abc:
  "json_dumps \<lparr>instruction = ''a'', input = ''b'', output = ''c''\<rparr> =
     ''{'' @ [CHR 0x22] @ ''instruction'' @ [CHR 0x22] @ '': '' @ [CHR 0x22] @ ''a'' @
     [CHR 0x22] @ '', '' @ [CHR 0x22] @ ''input'' @ [CHR 0x22] @ '': '' @ [CHR 0x22] @
     ''b'' @ [CHR 0x22] @ '', '' @ [CHR 0x22] @ ''output'' @ [CHR 0x22] @ '': '' @
     [CHR 0x22] @ ''c'' @ [CHR 0x22] @ ''}''"
  by (simp add: json_dumps_def json_string_def json_escape_char_def)

text \<open>
  Claim C4, as the code has it. When the file is absent, empty or ends with a line
  terminator and has \<open>M\<close> lines, appending \<open>K\<close> records leaves a file of \<open>M + K\<close>
  lines, and the printed status line reports the total \<open>M + K\<close>.
\<close>

theorem save_to_jsonl_line_count:
  assumes "content = (case files self filename of None \<Rightarrow> [] | Some c \<Rightarrow> c)"
    and "line_ended content"
  shows "\<exists>appended.
     files (save_to_jsonl instruction_pairs filename self) filename = Some appended \<and>
     count_lines appended = count_lines content + length instruction_pairs \<and>
     trace (save_to_jsonl instruction_pairs filename self) =
       trace self @
       [Print (''Added '' @ str_nat (length instruction_pairs) @
               '' instruction pairs to '' @ filename @ '' (now contains '' @
               str_nat (count_lines content + length instruction_pairs) @
               '' total entries)'')]"
  using assms count_lines_append_records [of content instruction_pairs]
  by (auto simp: save_to_jsonl_def emit_def Let_def split: option.splits)

theorem save_to_jsonl_line_count_witness:
  "line_ended [] \<and>
   files (save_to_jsonl [\<lparr>instruction = ''a'', input = ''b'', output = ''c''\<rparr>] ''d.jsonl''
            demo_scraper) ''d.jsonl'' =
     Some (json_dumps \<lparr>instruction = ''a'', input = ''b'', output = ''c''\<rparr> @ newline) \<and>
   count_lines (json_dumps \<lparr>instruction = ''a'', input = ''b'', output = ''c''\<rparr> @ newline) = 1"
  using save_to_jsonl_line_count
    [of "[]" demo_scraper "''d.jsonl''" "[\<lparr>instruction = ''a'', input = ''b'', output = ''c''\<rparr>]"]
  by (simp add: line_ended_def demo_scraper_def save_to_jsonl_def emit_def)

text \<open>
  Claim C4 as stated fails for a file whose last line is not terminated: the file
  \<^verbatim>\<open>x\<close> has one line, one record is appended to that line, the file still has one line
  and the status line reports two.
\<close>

theorem save_to_jsonl_unfinished_line_counterexample:
  "files (demo_scraper\<lparr>files := [''d.jsonl'' \<mapsto> ''x'']\<rparr>) ''d.jsonl'' = Some ''x'' \<and>
   count_lines ''x'' = 1 \<and>
   files (save_to_jsonl [\<lparr>instruction = ''a'', input = ''b'', output = ''c''\<rparr>] ''d.jsonl''
            (demo_scraper\<lparr>files := [''d.jsonl'' \<mapsto> ''x'']\<rparr>)) ''d.jsonl'' =
     Some (''x'' @ json_dumps \<lparr>instruction = ''a'', input = ''b'', output = ''c''\<rparr> @ newline) \<and>
   count_lines (''x'' @ json_dumps \<lparr>instruction = ''a'', input = ''b'', output = ''c''\<rparr> @ newline)
     = 1 \<and>
   trace (save_to_jsonl [\<lparr>instruction = ''a'', input = ''b'', output = ''c''\<rparr>] ''d.jsonl''
            (demo_scraper\<lparr>files := [''d.jsonl'' \<mapsto> ''x'']\<rparr>)) =
     [Print ''Added 1 instruction pairs to d.jsonl (now contains 2 total entries)'']"
proof -
  have "str_nat (Suc 0) = ''1''" "str_nat (Suc (Suc 0)) = ''2''"
    by (simp_all add: str_nat.simps)
  then show ?thesis
    by (simp add: save_to_jsonl_def emit_def demo_scraper_def json_dumps_abc newline_def)
qed


section \<open>Properties of the orchestration\<close>

lemma scrape_website_state:
  "scrape_website env self = Inr (t, self') \<Longrightarrow>
   visited_urls self' = visited_urls self \<and> base_url self' = base_url self \<and>
   url self' = url self \<and> files self' = files self"
  by (auto simp: scrape_website_def emit_def Let_def
      split: option.splits http_result.splits if_splits)

lemma scrape_website_returns:
  "url self = Some u \<Longrightarrow> \<exists>t self'. scrape_website env self = Inr (t, self')"
  by (auto simp: scrape_website_def Let_def split: http_result.splits)

lemma attempt_state:
  "attempt env text_content self ps = (ps', self') \<Longrightarrow>
   visited_urls self' = visited_urls self \<and> base_url self' = base_url self \<and>
   url self' = url self \<and> files self' = files self"
  by (auto simp: attempt_def emit_def Let_def split: sum.splits option.splits)

lemma attempts_state:
  "attempts env text_content n self ps = (ps', self') \<Longrightarrow>
   visited_urls self' = visited_urls self \<and> base_url self' = base_url self \<and>
   url self' = url self \<and> files self' = files self"
proof (induction n arbitrary: self ps)
  case 0
  then show ?case by simp
next
  case (Suc n)
  obtain ps1 self1 where a: "attempt env text_content self ps = (ps1, self1)"
    by (cases "attempt env text_content self ps")
  with Suc.prems have "attempts env text_content n self1 ps1 = (ps', self')" by simp
  from Suc.IH [OF this] attempt_state [OF a] show ?case by simp
qed

lemma generate_instruction_pairs_visited:
  "visited_urls (snd (generate_instruction_pairs env text_content num_pairs self)) =
   visited_urls self"
  using attempts_state [of env text_content "nat num_pairs" self "[]"]
  by (cases "attempts env text_content (nat num_pairs) self []")
     (simp add: generate_instruction_pairs_def)

lemma generate_instruction_pairs_state:
  "generate_instruction_pairs env text_content num_pairs self = (ps, self') \<Longrightarrow>
   visited_urls self' = visited_urls self"
  using attempts_state [of env text_content "nat num_pairs" self "[]" ps self']
  by (simp add: generate_instruction_pairs_def)

lemma save_to_jsonl_visited:
  "visited_urls (save_to_jsonl ps filename self) = visited_urls self"
  by (simp add: save_to_jsonl_def emit_def Let_def)

lemma process_links_visited:
  "\<exists>final. process_links env n out ls self = Inr final \<and>
     visited_urls final = visited_urls self \<union> set ls"
proof (induction ls arbitrary: self)
  case Nil
  then show ?case by simp
next
  case (Cons u ls)
  define self3 where "self3 = (emit (Print (''Processing recipe: '' @ u)) self)
      \<lparr>url := Some u, visited_urls := insert u (visited_urls self)\<rparr>"
  have v3: "visited_urls self3 = insert u (visited_urls self)" by (simp add: self3_def)
  have "url self3 = Some u" by (simp add: self3_def)
  then obtain t self4 where sw: "scrape_website env self3 = Inr (t, self4)"
    using scrape_website_returns by blast
  have v4: "visited_urls self4 = insert u (visited_urls self)"
    using scrape_website_state [OF sw] v3 by simp
  define self5 where "self5 =
     (case t of None \<Rightarrow> self4
      | Some t' \<Rightarrow> if t' = [] then self4
          else (case generate_instruction_pairs env t' n self4 of
                  (instruction_pairs, self') \<Rightarrow> save_to_jsonl instruction_pairs out self'))"
  have v5: "visited_urls self5 = insert u (visited_urls self)"
    using v4
    by (auto simp: self5_def save_to_jsonl_visited split: option.splits prod.splits
          dest!: generate_instruction_pairs_state)
  have step: "process_links env n out (u # ls) self =
      process_links env n out ls (emit (Sleep 2) self5)"
    using sw by (simp add: self3_def self5_def emit_def Let_def)
  from Cons.IH [of "emit (Sleep 2) self5"] v5 step show ?case
    by (auto simp: emit_def)
qed

lemma process_links_append:
  "process_links env n out (pre @ rest) self =
     (case process_links env n out pre self of
        Inl e \<Rightarrow> Inl e
      | Inr mid \<Rightarrow> process_links env n out rest mid)"
proof (induction pre arbitrary: self)
  case Nil
  then show ?case by simp
next
  case (Cons u pre)
  show ?case
    by (simp add: Let_def Cons.IH split: sum.splits prod.splits)
qed

text \<open>
  Claim C9. \<^verbatim>\<open>find_recipe_links\<close> leaves the visited set and the base URL as they
  are, and so do \<^verbatim>\<open>scrape_website\<close>, \<^verbatim>\<open>generate_instruction_pairs\<close> and
  \<^verbatim>\<open>save_to_jsonl\<close> with the visited set. The loop runs to its end, and when it has
  processed the links \<open>pre\<close> the visited set is the initial one with exactly these
  links added: a link enters the set in the pass that processes it, not before. So
  \<^verbatim>\<open>process_multiple_recipes\<close>, when discovery on the base URL returns the links
  \<open>pre @ rest\<close>, has the visited set of the start with \<open>pre\<close> added at the moment it
  turns to \<open>rest\<close>, and ends with exactly the discovered links added; and whenever
  it ends, the visited set is the one of the start with the discovered links added.
\<close>

theorem visited_urls_frame:
  "(find_recipe_links env page_url max_links self = Inr (links, self1) \<longrightarrow>
      visited_urls self1 = visited_urls self \<and> base_url self1 = base_url self) \<and>
   (scrape_website env self = Inr (t, self2) \<longrightarrow> visited_urls self2 = visited_urls self) \<and>
   visited_urls (snd (generate_instruction_pairs env text_content num_pairs self)) =
     visited_urls self \<and>
   visited_urls (save_to_jsonl instruction_pairs filename self) = visited_urls self \<and>
   (\<exists>mid. process_links env n out pre self = Inr mid \<and>
          visited_urls mid = visited_urls self \<union> set pre \<and>
          process_links env n out (pre @ rest) self = process_links env n out rest mid) \<and>
   (find_recipe_links env (base_url self) max_recipes self = Inr (pre @ rest, found) \<longrightarrow>
      (\<exists>mid final.
          process_links env n out pre found = Inr mid \<and>
          visited_urls mid = visited_urls self \<union> set pre \<and>
          process_multiple_recipes env n max_recipes out self =
            process_links env n out rest mid \<and>
          process_multiple_recipes env n max_recipes out self = Inr final \<and>
          visited_urls final = visited_urls self \<union> set (pre @ rest))) \<and>
   (process_multiple_recipes env n max_recipes out self = Inr final' \<longrightarrow>
      (\<exists>recipe_links found'.
          find_recipe_links env (base_url self) max_recipes self = Inr (recipe_links, found') \<and>
          visited_urls final' = visited_urls self \<union> set recipe_links))"
proof -
  obtain mid where m: "process_links env n out pre self = Inr mid"
    "visited_urls mid = visited_urls self \<union> set pre"
    using process_links_visited by blast
  then have app: "process_links env n out (pre @ rest) self = process_links env n out rest mid"
    by (simp add: process_links_append)
  have pmr: "\<exists>mid final.
          process_links env n out pre found = Inr mid \<and>
          visited_urls mid = visited_urls self \<union> set pre \<and>
          process_multiple_recipes env n max_recipes out self =
            process_links env n out rest mid \<and>
          process_multiple_recipes env n max_recipes out self = Inr final \<and>
          visited_urls final = visited_urls self \<union> set (pre @ rest)"
    if f: "find_recipe_links env (base_url self) max_recipes self = Inr (pre @ rest, found)"
  proof -
    have vf: "visited_urls found = visited_urls self"
      using find_recipe_links_state [OF f] by simp
    obtain mid' where m': "process_links env n out pre found = Inr mid'"
      "visited_urls mid' = visited_urls found \<union> set pre"
      using process_links_visited by blast
    obtain final where fin: "process_links env n out (pre @ rest) found = Inr final"
      "visited_urls final = visited_urls found \<union> set (pre @ rest)"
      using process_links_visited by blast
    have run: "process_multiple_recipes env n max_recipes out self =
        process_links env n out (pre @ rest) found"
      using f by (simp add: process_multiple_recipes_def)
    have "process_links env n out (pre @ rest) found = process_links env n out rest mid'"
      using m'(1) by (simp add: process_links_append)
    with m' fin run vf show ?thesis by (intro exI [of _ mid'] exI [of _ final]) simp
  qed
  have from_run: "\<exists>recipe_links found'.
          find_recipe_links env (base_url self) max_recipes self = Inr (recipe_links, found') \<and>
          visited_urls final' = visited_urls self \<union> set recipe_links"
    if p: "process_multiple_recipes env n max_recipes out self = Inr final'"
  proof -
    from p obtain recipe_links found' where
      f: "find_recipe_links env (base_url self) max_recipes self = Inr (recipe_links, found')"
      and r: "process_links env n out recipe_links found' = Inr final'"
      by (auto simp: process_multiple_recipes_def split: sum.splits)
    have vf: "visited_urls found' = visited_urls self"
      using find_recipe_links_state [OF f] by simp
    obtain final where "process_links env n out recipe_links found' = Inr final"
      "visited_urls final = visited_urls found' \<union> set recipe_links"
      using process_links_visited by blast
    with r vf f show ?thesis by auto
  qed
  from m app pmr from_run show ?thesis
    using find_recipe_links_state [of env page_url max_links self links self1]
      scrape_website_state [of env self t self2]
    by (auto simp: generate_instruction_pairs_visited save_to_jsonl_visited)
qed

theorem visited_urls_frame_witness:
  "find_recipe_links demo_env ''https://example.com'' 1 site_scraper =
     Inr ([''https://example.com/recipe/pasta''],
          emit (HttpGet ''https://example.com'') site_scraper) \<and>
   visited_urls (emit (HttpGet ''https://example.com'') site_scraper) = {} \<and>
   scrape_website demo_env (site_scraper\<lparr>url := Some ''https://example.com/recipe/pasta''\<rparr>) =
     Inr (Some ''Boil the pasta.'',
          emit (HttpGet ''https://example.com/recipe/pasta'')
            (site_scraper\<lparr>url := Some ''https://example.com/recipe/pasta''\<rparr>)) \<and>
   (\<exists>final. process_multiple_recipes demo_env 1 1 ''out.jsonl'' site_scraper = Inr final \<and>
            visited_urls final = {''https://example.com/recipe/pasta''})"
proof -
  have b: "base_url site_scraper = ''https://example.com''"
    by (simp add: site_scraper_def)
  have v: "visited_urls site_scraper = {}"
    by (simp add: site_scraper_def demo_scraper_def)
  have f: "find_recipe_links demo_env ''https://example.com'' 1 site_scraper =
     Inr ([''https://example.com/recipe/pasta''],
          emit (HttpGet ''https://example.com'') site_scraper)"
    by (simp add: find_recipe_links_def demo_env_def site_scraper_def demo_scraper_def
        raises_for_status_def absolute_href_def startswith_def is_recipe_link_def
        recipe_patterns_def str_lower_def lower_char_def set_add_def emit_def)
  have f': "find_recipe_links demo_env (base_url site_scraper) 1 site_scraper =
     Inr ([''https://example.com/recipe/pasta''] @ [],
          emit (HttpGet ''https://example.com'') site_scraper)"
    using f b by simp
  have s: "scrape_website demo_env
       (site_scraper\<lparr>url := Some ''https://example.com/recipe/pasta''\<rparr>) =
     Inr (Some ''Boil the pasta.'',
          emit (HttpGet ''https://example.com/recipe/pasta'')
            (site_scraper\<lparr>url := Some ''https://example.com/recipe/pasta''\<rparr>))"
    by (simp add: scrape_website_def demo_env_def site_scraper_def demo_scraper_def
          raises_for_status_def emit_def)
  note frame1 = visited_urls_frame
         [where env = demo_env and page_url = "''https://example.com''" and max_links = 1
            and self = site_scraper and links = "[''https://example.com/recipe/pasta'']"
            and ?self1.0 = "emit (HttpGet ''https://example.com'') site_scraper"
            and n = 1 and out = "''out.jsonl''"
            and pre = "[''https://example.com/recipe/pasta'']" and rest = "[]"
            and max_recipes = 1
            and found = "emit (HttpGet ''https://example.com'') site_scraper"]
  note frame2 = visited_urls_frame
         [where env = demo_env
            and self = "site_scraper\<lparr>url := Some ''https://example.com/recipe/pasta''\<rparr>"
            and t = "Some ''Boil the pasta.''"
            and ?self2.0 = "emit (HttpGet ''https://example.com/recipe/pasta'')
                (site_scraper\<lparr>url := Some ''https://example.com/recipe/pasta''\<rparr>)"]
  have a: "visited_urls (emit (HttpGet ''https://example.com'') site_scraper) = {}"
    using mp [OF frame1 [THEN conjunct1] f] v by simp
  have "visited_urls (emit (HttpGet ''https://example.com/recipe/pasta'')
            (site_scraper\<lparr>url := Some ''https://example.com/recipe/pasta''\<rparr>)) =
           visited_urls (site_scraper\<lparr>url := Some ''https://example.com/recipe/pasta''\<rparr>)"
    by (rule mp [OF frame2 [THEN conjunct2, THEN conjunct1] s])
  obtain final where fin:
    "process_multiple_recipes demo_env 1 1 ''out.jsonl'' site_scraper = Inr final"
    "visited_urls final =
       visited_urls site_scraper \<union> set ([''https://example.com/recipe/pasta''] @ [])"
    using mp [OF frame1 [THEN conjunct2, THEN conjunct2, THEN conjunct2, THEN conjunct2,
                         THEN conjunct2, THEN conjunct1] f']
    by (elim exE conjE)
  from fin(2) v have "visited_urls final = {''https://example.com/recipe/pasta''}" by simp
  with fin(1) have c: "\<exists>final. process_multiple_recipes demo_env 1 1 ''out.jsonl'' site_scraper =
        Inr final \<and> visited_urls final = {''https://example.com/recipe/pasta''}"
    by (intro exI [of _ final] conjI)
  from a c f s show ?thesis by (intro conjI)
qed

end
